theory Spec2Isabelle
  imports Main
begin

section \<open>The SnapBox server: device events and websocket broadcasting\<close>

text \<open>
  A shallow embedding of the class \<open>SnapBoxServer\<close> of \<open>snapbox/server.py\<close>: the
  methods \<open>udev_init\<close>, \<open>usb_device_event\<close>, \<open>add_websocket\<close>,
  \<open>remove_websocket\<close>, \<open>send_init_event_to_websocket\<close> and
  \<open>send_msg_to_websockets\<close>, with the part of \<open>__init__\<close> that sets up the
  attributes these methods use.

  The collaborators that the file imports are not part of it and enter as parameters:
  \<^item> the camera (\<open>lib.camera.Camera\<close>): a camera state of type \<open>'c\<close>, the effect
    \<open>load\<close> of \<open>camera.load()\<close> on it and the reading \<open>get_connect\<close> of
    \<open>camera.get_connect()\<close>, a boolean;
  \<^item> the websocket handlers: handles of type \<open>'w\<close>, compared by equality as Python's
    \<open>in\<close> does, and a predicate \<open>closed\<close> that tells on which handles
    \<open>write_message\<close> raises \<open>WebSocketClosedError\<close>.

  \<open>camera.load()\<close>, \<open>camera.get_connect()\<close> and the pyudev constructors are taken
  to return normally. The methods are first modelled as they run one after the other:
  then a loop over \<open>self.websockets\<close> sees the list as it was when the loop began,
  since nothing inside the loop changes it. The broadcast loop is modelled a second
  time with its list iterator written out, for registry calls that run while it is in
  progress.
\<close>

subsection \<open>JSON text of a flat dictionary\<close>

text \<open>
  The dictionaries that the server serialises map string keys to strings and booleans.
  A dictionary is an association list in insertion order, which is the order in which
  \<open>json.dumps\<close> writes the items.
\<close>

datatype jvalue = JBool bool | JStr string

type_synonym jdict = "(string \<times> jvalue) list"

text \<open>Lower-case hexadecimal digit, as in the format \<open>{0:04x}\<close>.\<close>

definition hex_digit :: "nat \<Rightarrow> char" where
  "hex_digit n = (''0123456789abcdef'') ! (n mod 16)"

text \<open>
  The escaping of \<open>json.dumps\<close> with \<open>ensure_ascii\<close>: backslash, double quote and
  the five named control characters have two-character escapes, every other character
  outside the range from space to tilde is written \<open>\u00xx\<close>. A \<open>char\<close> is a code
  point below 256 here.
\<close>

definition escape_char :: "char \<Rightarrow> string" where
  "escape_char c =
     (if c = CHR 0x5C then [CHR 0x5C, CHR 0x5C]
      else if c = CHR 0x22 then [CHR 0x5C, CHR 0x22]
      else if c = CHR 0x08 then [CHR 0x5C, CHR ''b'']
      else if c = CHR 0x0C then [CHR 0x5C, CHR ''f'']
      else if c = CHR 0x0A then [CHR 0x5C, CHR ''n'']
      else if c = CHR 0x0D then [CHR 0x5C, CHR ''r'']
      else if c = CHR 0x09 then [CHR 0x5C, CHR ''t'']
      else if 32 \<le> (of_char c :: nat) \<and> (of_char c :: nat) \<le> 126 then [c]
      else [CHR 0x5C, CHR ''u'', CHR ''0'', CHR ''0'',
            hex_digit ((of_char c :: nat) div 16), hex_digit (of_char c :: nat)])"

definition encode_string :: "string \<Rightarrow> string" where
  "encode_string s = [CHR 0x22] @ concat (map escape_char s) @ [CHR 0x22]"

text \<open>Python's \<open>sep.join(parts)\<close>.\<close>

fun join :: "string \<Rightarrow> string list \<Rightarrow> string" where
  "join sep [] = []"
| "join sep [x] = x"
| "join sep (x # y # ys) = x @ sep @ join sep (y # ys)"

fun dumps_value :: "jvalue \<Rightarrow> string" where
  "dumps_value (JBool b) = (if b then ''true'' else ''false'')"
| "dumps_value (JStr s) = encode_string s"

definition dumps_item :: "string \<times> jvalue \<Rightarrow> string" where
  "dumps_item kv = encode_string (fst kv) @ '': '' @ dumps_value (snd kv)"

text \<open>\<open>json.dumps\<close> with its default separators \<open>', '\<close> and \<open>': '\<close>.\<close>

definition json_dumps :: "jdict \<Rightarrow> string" where
  "json_dumps d = ''{'' @ join '', '' (map dumps_item d) @ ''}''"

subsection \<open>State\<close>

text \<open>
  A device as pyudev hands it to the callback. \<open>action\<close> and \<open>device_type\<close> are
  \<open>None\<close> when the device has none.
\<close>

record device =
  action :: "string option"
  device_type :: "string option"
  device_path :: string

text \<open>
  A \<open>MonitorObserver\<close> as \<open>udev_init\<close> builds it: the subsystem its monitor is
  filtered by and the name of its thread. Its callback is always
  \<open>self.usb_device_event\<close>.
\<close>

record observer =
  subsystem :: string
  thread_name :: string

text \<open>
  The attributes of the server that the methods read and write (\<open>camera\<close>,
  \<open>websockets\<close>, \<open>observer_usb\<close>), and what the methods do to the world outside:
  \<open>started\<close> lists the observer threads that have been started (none is ever stopped),
  \<open>sent\<close> the messages that \<open>write_message\<close> has accepted, with the handle each
  went to, and \<open>log_lines\<close> the lines given to \<open>logging.info\<close>, all oldest first.
\<close>

record ('w, 'c) server =
  camera :: 'c
  websockets :: "'w list"
  observer_usb :: "observer option"
  started :: "observer list"
  sent :: "('w \<times> string) list"
  log_lines :: "string list"

datatype error = WebSocketClosedError

text \<open>
  A method returns normally with the new state (\<open>Inr\<close>), or raises (\<open>Inl\<close>) and
  leaves behind the state reached when the exception left it.
\<close>

type_synonym ('w, 'c) result = "(error \<times> ('w, 'c) server) + ('w, 'c) server"

definition state_of :: "('w, 'c) result \<Rightarrow> ('w, 'c) server" where
  "state_of r = (case r of Inl (e, s) \<Rightarrow> s | Inr s \<Rightarrow> s)"

definition raised :: "('w, 'c) result \<Rightarrow> bool" where
  "raised r = (case r of Inl x \<Rightarrow> True | Inr s \<Rightarrow> False)"

subsection \<open>The methods\<close>

text \<open>The dictionary that both senders build; \<open>v\<close> is \<open>self.camera.get_connect()\<close>.\<close>

definition state_event :: "bool \<Rightarrow> jdict" where
  "state_event v =
     [(''event'', JStr ''update''),
      (''type'', JStr ''state''),
      (''mutation'', JStr ''camera/setIsConnected''),
      (''value'', JBool v)]"

text \<open>\<open>websocket.write_message(text)\<close>: raises on a closed connection, sends otherwise.\<close>

definition write_message ::
  "('w \<Rightarrow> bool) \<Rightarrow> 'w \<Rightarrow> string \<Rightarrow> ('w, 'c) server \<Rightarrow> ('w, 'c) result" where
  "write_message closed w text s =
     (if closed w then Inl (WebSocketClosedError, s)
      else Inr (s\<lparr>sent := sent s @ [(w, text)]\<rparr>))"

text \<open>
  \<open>udev_init\<close>: a new observer on the usb subsystem is built, stored in
  \<open>self.observer_usb\<close> and started.
\<close>

definition usb_observer :: observer where
  "usb_observer = \<lparr>subsystem = ''usb'', thread_name = ''usb-monitor-observer''\<rparr>"

definition udev_init :: "('w, 'c) server \<Rightarrow> ('w, 'c) server" where
  "udev_init s = s\<lparr>observer_usb := Some usb_observer, started := started s @ [usb_observer]\<rparr>"

text \<open>
  The end of \<open>__init__\<close>: the camera is given, \<open>self.websockets = list()\<close>, then
  \<open>self.udev_init()\<close>.
\<close>

definition new_server :: "'c \<Rightarrow> ('w, 'c) server" where
  "new_server cam =
     udev_init \<lparr>camera = cam, websockets = [], observer_usb = None, started = [],
                sent = [], log_lines = []\<rparr>"

text \<open>
  \<open>send_msg_to_websockets\<close>: the loop over \<open>self.websockets\<close>. There is no
  \<open>try\<close> around \<open>write_message\<close>: an exception leaves the loop and the method.
\<close>

fun send_loop ::
  "('w \<Rightarrow> bool) \<Rightarrow> jdict \<Rightarrow> 'w list \<Rightarrow> ('w, 'c) server \<Rightarrow> ('w, 'c) result" where
  "send_loop closed msg_json [] s = Inr s"
| "send_loop closed msg_json (w # ws) s =
     (case write_message closed w (json_dumps msg_json) s of
        Inl e \<Rightarrow> Inl e
      | Inr s' \<Rightarrow> send_loop closed msg_json ws s')"

definition send_msg_to_websockets ::
  "('w \<Rightarrow> bool) \<Rightarrow> jdict \<Rightarrow> ('w, 'c) server \<Rightarrow> ('w, 'c) result" where
  "send_msg_to_websockets closed msg_json s = send_loop closed msg_json (websockets s) s"

text \<open>
  \<open>send_init_event_to_websocket\<close>: the list \<open>events\<close> has one dictionary; the loop
  writes each event to the one websocket.
\<close>

fun send_events ::
  "('w \<Rightarrow> bool) \<Rightarrow> 'w \<Rightarrow> jdict list \<Rightarrow> ('w, 'c) server \<Rightarrow> ('w, 'c) result" where
  "send_events closed w [] s = Inr s"
| "send_events closed w (event # events) s =
     (case write_message closed w (json_dumps event) s of
        Inl e \<Rightarrow> Inl e
      | Inr s' \<Rightarrow> send_events closed w events s')"

definition send_init_event_to_websocket ::
  "('c \<Rightarrow> bool) \<Rightarrow> ('w \<Rightarrow> bool) \<Rightarrow> 'w \<Rightarrow> ('w, 'c) server \<Rightarrow> ('w, 'c) result" where
  "send_init_event_to_websocket get_connect closed w s =
     send_events closed w [state_event (get_connect (camera s))] s"

definition add_websocket ::
  "('c \<Rightarrow> bool) \<Rightarrow> ('w \<Rightarrow> bool) \<Rightarrow> 'w \<Rightarrow> ('w, 'c) server \<Rightarrow> ('w, 'c) result" where
  "add_websocket get_connect closed w s =
     (if w \<notin> set (websockets s)
      then send_init_event_to_websocket get_connect closed w
             (s\<lparr>websockets := websockets s @ [w]\<rparr>)
      else Inr s)"

text \<open>\<open>list.remove\<close> deletes the first occurrence.\<close>

definition remove_websocket :: "'w \<Rightarrow> ('w, 'c) server \<Rightarrow> ('w, 'c) server" where
  "remove_websocket w s =
     (if w \<in> set (websockets s) then s\<lparr>websockets := remove1 w (websockets s)\<rparr> else s)"

text \<open>Python's \<open>str.format\<close> writes \<open>None\<close> as the text \<open>None\<close>.\<close>

definition format_str :: "string option \<Rightarrow> string" where
  "format_str x = (case x of None \<Rightarrow> ''None'' | Some t \<Rightarrow> t)"

definition event_log_line :: "device \<Rightarrow> string" where
  "event_log_line d = ''background event '' @ format_str (action d) @ '': '' @ device_path d"

text \<open>
  \<open>usb_device_event\<close>: on an add or remove of a usb interface the event is logged, the
  camera reloaded, and the state read after the reload is broadcast.
\<close>

definition usb_device_event ::
  "('c \<Rightarrow> 'c) \<Rightarrow> ('c \<Rightarrow> bool) \<Rightarrow> ('w \<Rightarrow> bool) \<Rightarrow> device \<Rightarrow> ('w, 'c) server \<Rightarrow> ('w, 'c) result" where
  "usb_device_event load get_connect closed d s =
     (if action d \<in> set [Some ''add'', Some ''remove''] \<and> device_type d = Some ''usb_interface''
      then
        let s1 = s\<lparr>log_lines := log_lines s @ [event_log_line d]\<rparr>;
            s2 = s1\<lparr>camera := load (camera s1)\<rparr>
        in send_msg_to_websockets closed (state_event (get_connect (camera s2))) s2
      else Inr s)"

subsection \<open>The wire schema, in the specification's words\<close>

text \<open>
  The specification gives the text of a message as an object with the four keys
  \<open>event\<close>, \<open>type\<close>, \<open>mutation\<close> and \<open>value\<close>, in this order, the first three
  with constant strings and the last with a boolean, items separated by a comma and a
  space, key and value by a colon and a space. \<open>wire_schema\<close> is that text, written
  out; it is compared with what \<open>json_dumps\<close> computes from the dictionary.
\<close>

definition quoted :: "string \<Rightarrow> string" where
  "quoted s = CHR 0x22 # s @ [CHR 0x22]"

definition wire_schema :: "bool \<Rightarrow> string" where
  "wire_schema v =
     ''{'' @ quoted ''event'' @ '': '' @ quoted ''update'' @ '', '' @
     quoted ''type'' @ '': '' @ quoted ''state'' @ '', '' @
     quoted ''mutation'' @ '': '' @ quoted ''camera/setIsConnected'' @ '', '' @
     quoted ''value'' @ '': '' @ (if v then ''true'' else ''false'') @ ''}''"

subsection \<open>Sequences of registry calls\<close>

text \<open>
  The calls that reach the registry: \<open>add_websocket\<close>, \<open>remove_websocket\<close> and
  \<open>send_msg_to_websockets\<close>. A sequence of calls runs each on the state its
  predecessor left, also when that one raised: the exception ends the call, not the
  server.
\<close>

datatype 'w call = Add 'w | Remove 'w | Broadcast jdict

fun call_step ::
  "('c \<Rightarrow> bool) \<Rightarrow> ('w \<Rightarrow> bool) \<Rightarrow> 'w call \<Rightarrow> ('w, 'c) server \<Rightarrow> ('w, 'c) server" where
  "call_step get_connect closed (Add w) s = state_of (add_websocket get_connect closed w s)"
| "call_step get_connect closed (Remove w) s = remove_websocket w s"
| "call_step get_connect closed (Broadcast msg_json) s =
     state_of (send_msg_to_websockets closed msg_json s)"

definition run_calls ::
  "('c \<Rightarrow> bool) \<Rightarrow> ('w \<Rightarrow> bool) \<Rightarrow> 'w call list \<Rightarrow> ('w, 'c) server \<Rightarrow> ('w, 'c) server" where
  "run_calls get_connect closed calls s = fold (call_step get_connect closed) calls s"

text \<open>
  The specification's reading of the same calls, on a set of members: an add is an
  insertion, a remove a deletion, a broadcast leaves the set as it is.
\<close>

fun set_step :: "'w call \<Rightarrow> 'w set \<Rightarrow> 'w set" where
  "set_step (Add w) members = insert w members"
| "set_step (Remove w) members = members - {w}"
| "set_step (Broadcast msg_json) members = members"

subsection \<open>The broadcast loop on the live list\<close>



text \<open>The messages that a websocket has been sent, oldest first.\<close>

definition received :: "'w \<Rightarrow> ('w, 'c) server \<Rightarrow> string list" where
  "received w s = map snd (filter (\<lambda>p. fst p = w) (sent s))"


subsection \<open>Concrete instances\<close>

text \<open>
  Two device events, a server with three clients, and instances of the parameters: a
  camera state that is its own connected flag, a reload that finds the camera, and
  two assignments of closed connections.
\<close>

definition usb_add :: device where
  "usb_add = \<lparr>action = Some ''add'', device_type = Some ''usb_interface'',
              device_path = ''/devices/usb1/1-1/1-1:1.0''\<rparr>"

definition usb_change :: device where
  "usb_change = \<lparr>action = Some ''change'', device_type = Some ''usb_interface'',
              device_path = ''/devices/usb1/1-1/1-1:1.0''\<rparr>"

definition three_clients :: "(nat, bool) server" where
  "three_clients = (new_server False)\<lparr>websockets := [1, 2, 3]\<rparr>"

definition second_closed :: "nat \<Rightarrow> bool" where
  "second_closed w = (w = 2)"

definition none_closed :: "nat \<Rightarrow> bool" where
  "none_closed w = False"

definition probe_present :: "bool \<Rightarrow> bool" where
  "probe_present c = True"

definition is_connected :: "bool \<Rightarrow> bool" where
  "is_connected c = c"

section \<open>Properties\<close>

subsection \<open>Auxiliary facts about the loops\<close>

lemma state_of_simps [simp]: "state_of (Inl (e, s)) = s" "state_of (Inr s) = s"
  by (simp_all add: state_of_def)

lemma raised_simps [simp]: "raised (Inl x) = True" "raised (Inr s) = False"
  by (simp_all add: raised_def)

lemma send_loop_all_open:
  "\<forall>w\<in>set ws. \<not> closed w \<Longrightarrow>
   send_loop closed m ws s = Inr (s\<lparr>sent := sent s @ map (\<lambda>w. (w, json_dumps m)) ws\<rparr>)"
  by (induction ws arbitrary: s) (simp_all add: write_message_def)

lemma send_loop_some_closed:
  "\<exists>w\<in>set ws. closed w \<Longrightarrow>
   send_loop closed m ws s =
     Inl (WebSocketClosedError,
          s\<lparr>sent := sent s @ map (\<lambda>w. (w, json_dumps m)) (takeWhile (\<lambda>w. \<not> closed w) ws)\<rparr>)"
proof (induction ws arbitrary: s)
  case Nil
  then show ?case by simp
next
  case (Cons w ws)
  show ?case
  proof (cases "closed w")
    case True
    then show ?thesis by (simp add: write_message_def)
  next
    case False
    with Cons.prems have "\<exists>v\<in>set ws. closed v" by simp
    from Cons.IH [OF this] False show ?thesis by (simp add: write_message_def)
  qed
qed

lemma send_loop_state:
  "state_of (send_loop closed m ws s) =
     s\<lparr>sent := sent s @ map (\<lambda>w. (w, json_dumps m)) (takeWhile (\<lambda>w. \<not> closed w) ws)\<rparr>"
proof (cases "\<exists>w\<in>set ws. closed w")
  case True
  then show ?thesis by (simp add: send_loop_some_closed)
next
  case False
  then have all_open: "\<forall>w\<in>set ws. \<not> closed w" by simp
  then show ?thesis
    by (simp add: send_loop_all_open takeWhile_eq_all_conv [THEN iffD2])
qed

lemma send_init_state:
  "send_init_event_to_websocket gc closed w s =
     (if closed w then Inl (WebSocketClosedError, s)
      else Inr (s\<lparr>sent := sent s @ [(w, json_dumps (state_event (gc (camera s))))]\<rparr>))"
  by (simp add: send_init_event_to_websocket_def write_message_def)

lemma json_dumps_state_event: "json_dumps (state_event v) = wire_schema v"
  by (simp add: json_dumps_def state_event_def dumps_item_def encode_string_def
      escape_char_def wire_schema_def quoted_def)

lemma send_msg_state:
  "state_of (send_msg_to_websockets closed m s) =
     s\<lparr>sent := sent s @
            map (\<lambda>w. (w, json_dumps m)) (takeWhile (\<lambda>w. \<not> closed w) (websockets s))\<rparr>"
  by (simp add: send_msg_to_websockets_def send_loop_state)

lemma add_websocket_websockets:
  "websockets (state_of (add_websocket gc closed w s)) =
     (if w \<in> set (websockets s) then websockets s else websockets s @ [w])"
  by (simp add: add_websocket_def send_init_state)

lemma call_step_websockets:
  "websockets (call_step gc closed c s) =
     (case c of
        Add w \<Rightarrow> if w \<in> set (websockets s) then websockets s else websockets s @ [w]
      | Remove w \<Rightarrow> remove1 w (websockets s)
      | Broadcast m \<Rightarrow> websockets s)"
  by (cases c) (simp_all add: add_websocket_websockets remove_websocket_def send_msg_state
      remove1_idem)

lemma call_step_distinct:
  "distinct (websockets s) \<Longrightarrow> distinct (websockets (call_step gc closed c s))"
  unfolding call_step_websockets by (cases c) simp_all

lemma call_step_set:
  "distinct (websockets s) \<Longrightarrow>
   set (websockets (call_step gc closed c s)) = set_step c (set (websockets s))"
  unfolding call_step_websockets by (cases c) auto

lemma fold_call_step:
  "distinct (websockets s) \<Longrightarrow>
   distinct (websockets (fold (call_step gc closed) cs s)) \<and>
   set (websockets (fold (call_step gc closed) cs s)) = fold set_step cs (set (websockets s))"
proof (induction cs arbitrary: s)
  case Nil
  then show ?case by simp
next
  case (Cons c cs)
  have d: "distinct (websockets (call_step gc closed c s))"
    using Cons.prems by (rule call_step_distinct)
  from Cons.IH [OF d] call_step_set [OF Cons.prems, of gc closed c]
  show ?case by simp
qed

lemma remove_websocket_websockets:
  "websockets (remove_websocket w s) = remove1 w (websockets s)"
  by (simp add: remove_websocket_def remove1_idem)

lemma send_msg_websockets:
  "websockets (state_of (send_msg_to_websockets closed m s)) = websockets s"
  by (simp add: send_msg_state)

lemma filter_sent_to:
  "filter (\<lambda>p. fst p = w) (map (\<lambda>v. (v, text)) ws) =
     map (\<lambda>v. (v, text)) (filter (\<lambda>v. v = w) ws)"
  by (induction ws) simp_all

lemma count_distinct:
  "distinct ws \<Longrightarrow> length (filter (\<lambda>v. v = w) ws) = (if w \<in> set ws then 1 else 0)"
  by (induction ws) auto

lemma count_sent_to:
  assumes "distinct ws"
  shows "length (filter (\<lambda>p. fst p = w) (map (\<lambda>v. (v, text)) ws)) =
           (if w \<in> set ws then 1 else 0)"
  by (simp only: filter_sent_to length_map count_distinct [OF assms])

subsection \<open>Auxiliary facts about the loop on the live list\<close>

lemma write_message_websockets:
  "write_message closed w text s = Inr s' \<Longrightarrow> websockets s' = websockets s"
  by (auto simp add: write_message_def split: if_splits)


lemma received_append:
  "received w (s\<lparr>sent := sent s @ xs\<rparr>) = received w s @ map snd (filter (\<lambda>p. fst p = w) xs)"
  by (simp add: received_def)








subsection \<open>Device events\<close>

text \<open>
  Claim C1. An event whose action is add or remove and whose device type is
  \<open>usb_interface\<close> makes one pass over the registry: the camera is reloaded first,
  and every registered websocket up to the first closed one is sent one message, the
  dictionary whose \<open>value\<close> is the connected state read after the reload. When no
  registered websocket is closed the handler returns normally and every registered
  websocket has received that one message.
\<close>

theorem usb_device_event_broadcasts_refreshed_state:
  assumes "action d = Some ''add'' \<or> action d = Some ''remove''"
    and "device_type d = Some ''usb_interface''"
  shows "state_of (usb_device_event load get_connect closed d s) =
           s\<lparr>log_lines := log_lines s @ [event_log_line d],
             camera := load (camera s),
             sent := sent s @
               map (\<lambda>w. (w, json_dumps (state_event (get_connect (load (camera s))))))
                 (takeWhile (\<lambda>w. \<not> closed w) (websockets s))\<rparr>
         \<and> ((\<forall>w\<in>set (websockets s). \<not> closed w) \<longrightarrow>
              usb_device_event load get_connect closed d s =
                Inr (s\<lparr>log_lines := log_lines s @ [event_log_line d],
                       camera := load (camera s),
                       sent := sent s @
                         map (\<lambda>w. (w, json_dumps (state_event (get_connect (load (camera s))))))
                           (websockets s)\<rparr>))
         \<and> map_of (state_event (get_connect (load (camera s)))) ''value'' =
              Some (JBool (get_connect (load (camera s))))"
proof -
  have q: "action d \<in> set [Some ''add'', Some ''remove''] \<and> device_type d = Some ''usb_interface''"
    using assms by auto
  have a: "state_of (usb_device_event load get_connect closed d s) =
           s\<lparr>log_lines := log_lines s @ [event_log_line d],
             camera := load (camera s),
             sent := sent s @
               map (\<lambda>w. (w, json_dumps (state_event (get_connect (load (camera s))))))
                 (takeWhile (\<lambda>w. \<not> closed w) (websockets s))\<rparr>"
    using q by (simp add: usb_device_event_def Let_def send_msg_state)
  have b: "(\<forall>w\<in>set (websockets s). \<not> closed w) \<longrightarrow>
              usb_device_event load get_connect closed d s =
                Inr (s\<lparr>log_lines := log_lines s @ [event_log_line d],
                       camera := load (camera s),
                       sent := sent s @
                         map (\<lambda>w. (w, json_dumps (state_event (get_connect (load (camera s))))))
                           (websockets s)\<rparr>)"
    using q by (simp add: usb_device_event_def Let_def send_msg_to_websockets_def
        send_loop_all_open)
  have c: "map_of (state_event (get_connect (load (camera s)))) ''value'' =
              Some (JBool (get_connect (load (camera s))))"
    by (simp add: state_event_def)
  from a b c show ?thesis by blast
qed

theorem usb_device_event_broadcasts_refreshed_state_witness:
  "(action usb_add = Some ''add'' \<or> action usb_add = Some ''remove'')
   \<and> device_type usb_add = Some ''usb_interface''
   \<and> usb_device_event probe_present is_connected none_closed usb_add three_clients =
       Inr (three_clients\<lparr>log_lines := [''background event add: /devices/usb1/1-1/1-1:1.0''],
              camera := True,
              sent := [(1, wire_schema True), (2, wire_schema True), (3, wire_schema True)]\<rparr>)"
proof -
  have h1: "action usb_add = Some ''add'' \<or> action usb_add = Some ''remove''"
    by (simp add: usb_add_def)
  have h2: "device_type usb_add = Some ''usb_interface''"
    by (simp add: usb_add_def)
  have h3: "\<forall>w\<in>set (websockets three_clients). \<not> none_closed w"
    by (simp add: none_closed_def)
  from usb_device_event_broadcasts_refreshed_state
    [OF h1 h2, of probe_present is_connected none_closed three_clients] h3
  have "usb_device_event probe_present is_connected none_closed usb_add three_clients =
        Inr (three_clients\<lparr>log_lines := log_lines three_clients @ [event_log_line usb_add],
               camera := probe_present (camera three_clients),
               sent := sent three_clients @
                 map (\<lambda>w. (w, json_dumps (state_event
                        (is_connected (probe_present (camera three_clients))))))
                   (websockets three_clients)\<rparr>)"
    by blast
  then show ?thesis using h1 h2
    by (simp add: json_dumps_state_event three_clients_def new_server_def udev_init_def
        probe_present_def is_connected_def event_log_line_def format_str_def usb_add_def)
qed

text \<open>
  Claim C5. An event with another action or another device type changes nothing: the
  handler returns the state it was given, so nothing is logged, the camera is not
  reloaded, nothing is sent and the registry is as before.
\<close>

theorem usb_device_event_ignores_other_events:
  assumes "\<not> ((action d = Some ''add'' \<or> action d = Some ''remove'')
              \<and> device_type d = Some ''usb_interface'')"
  shows "usb_device_event load get_connect closed d s = Inr s"
  using assms by (auto simp add: usb_device_event_def)

theorem usb_device_event_ignores_other_events_witness:
  "\<not> ((action usb_change = Some ''add'' \<or> action usb_change = Some ''remove'')
       \<and> device_type usb_change = Some ''usb_interface'')
   \<and> usb_device_event probe_present is_connected none_closed usb_change three_clients =
       Inr three_clients"
proof -
  have h: "\<not> ((action usb_change = Some ''add'' \<or> action usb_change = Some ''remove'')
       \<and> device_type usb_change = Some ''usb_interface'')"
    by (simp add: usb_change_def)
  from h usb_device_event_ignores_other_events [OF h] show ?thesis by blast
qed

subsection \<open>Subscribing and unsubscribing\<close>

text \<open>
  Claim C3. A websocket that is not registered is appended to the registry, in every
  case. When its connection accepts the write, \<open>add_websocket\<close> returns normally
  and exactly one message has been sent, to this websocket and to no other: the
  dictionary whose \<open>value\<close> is the connected state read at the time of the call.
\<close>

theorem add_websocket_registers_and_initialises:
  assumes "w \<notin> set (websockets s)"
  shows "websockets (state_of (add_websocket get_connect closed w s)) = websockets s @ [w]
         \<and> (\<not> closed w \<longrightarrow>
              add_websocket get_connect closed w s =
                Inr (s\<lparr>websockets := websockets s @ [w],
                       sent := sent s @
                         [(w, json_dumps (state_event (get_connect (camera s))))]\<rparr>))
         \<and> map_of (state_event (get_connect (camera s))) ''value'' =
              Some (JBool (get_connect (camera s)))"
  using assms by (simp add: add_websocket_def send_init_state state_event_def)

theorem add_websocket_registers_and_initialises_witness:
  "4 \<notin> set (websockets three_clients)
   \<and> add_websocket is_connected none_closed 4 three_clients =
       Inr (three_clients\<lparr>websockets := [1, 2, 3, 4], sent := [(4, wire_schema False)]\<rparr>)"
proof -
  have h: "4 \<notin> set (websockets three_clients)"
    by (simp add: three_clients_def)
  have o: "\<not> none_closed 4"
    by (simp add: none_closed_def)
  from add_websocket_registers_and_initialises [OF h, of is_connected none_closed] o
  have "add_websocket is_connected none_closed 4 three_clients =
          Inr (three_clients\<lparr>websockets := websockets three_clients @ [4],
                 sent := sent three_clients @
                   [(4, json_dumps (state_event (is_connected (camera three_clients))))]\<rparr>)"
    by blast
  then show ?thesis using h
    by (simp add: json_dumps_state_event three_clients_def new_server_def udev_init_def
        is_connected_def)
qed

text \<open>
  Claim C9. For a websocket that is already registered \<open>add_websocket\<close> returns the
  state it was given: no message is sent, no second initialisation takes place, and the
  registry and everything else stay as they were.
\<close>

theorem add_websocket_registered_is_noop:
  assumes "w \<in> set (websockets s)"
  shows "add_websocket get_connect closed w s = Inr s"
  using assms by (simp add: add_websocket_def)

theorem add_websocket_registered_is_noop_witness:
  "2 \<in> set (websockets three_clients)
   \<and> add_websocket is_connected none_closed 2 three_clients = Inr three_clients"
proof -
  have h: "2 \<in> set (websockets three_clients)"
    by (simp add: three_clients_def)
  from h add_websocket_registered_is_noop [OF h] show ?thesis by blast
qed

text \<open>
  Claim C4. Starting from a registry without duplicates (the empty registry of a new
  server is one), after any sequence of add, remove and broadcast calls the members of
  the registry are those that the set operations give: insertion for an add, deletion for
  a remove, nothing for a broadcast. The registry never holds a handle twice; an add of a
  member, a remove of a non-member and a broadcast leave the list as it is.
\<close>

theorem registry_follows_set_operations:
  assumes "distinct (websockets s)"
  shows "set (websockets (run_calls get_connect closed calls s)) =
           fold set_step calls (set (websockets s))
         \<and> distinct (websockets (run_calls get_connect closed calls s))
         \<and> (w \<in> set (websockets s) \<longrightarrow>
              websockets (call_step get_connect closed (Add w) s) = websockets s)
         \<and> (w \<notin> set (websockets s) \<longrightarrow>
              websockets (call_step get_connect closed (Remove w) s) = websockets s)
         \<and> websockets (call_step get_connect closed (Broadcast msg_json) s) = websockets s"
proof -
  have a: "set (websockets (run_calls get_connect closed calls s)) =
             fold set_step calls (set (websockets s))
           \<and> distinct (websockets (run_calls get_connect closed calls s))"
    using fold_call_step [OF assms, of get_connect closed calls]
    by (simp add: run_calls_def)
  have b: "w \<in> set (websockets s) \<longrightarrow>
             websockets (call_step get_connect closed (Add w) s) = websockets s"
    by (simp add: add_websocket_websockets)
  have c: "w \<notin> set (websockets s) \<longrightarrow>
             websockets (call_step get_connect closed (Remove w) s) = websockets s"
    by (simp add: remove_websocket_websockets remove1_idem)
  have d: "websockets (call_step get_connect closed (Broadcast msg_json) s) = websockets s"
    by (simp add: send_msg_websockets)
  from a b c d show ?thesis by blast
qed

theorem registry_follows_set_operations_witness:
  "distinct (websockets (new_server False :: (nat, bool) server))
   \<and> set (websockets (run_calls is_connected second_closed
        [Add 1, Add 2, Add 1, Broadcast (state_event True), Remove 3, Remove 1, Add 3]
        (new_server False))) = {2, 3}
   \<and> websockets (run_calls is_connected second_closed
        [Add 1, Add 2, Add 1, Broadcast (state_event True), Remove 3, Remove 1, Add 3]
        (new_server False)) = [2, 3]"
proof -
  have h: "distinct (websockets (new_server False :: (nat, bool) server))"
    by (simp add: new_server_def udev_init_def)
  have w: "websockets (new_server False :: (nat, bool) server) = []"
    by (simp add: new_server_def udev_init_def)
  have r: "websockets (run_calls is_connected second_closed
        [Add 1, Add 2, Add 1, Broadcast (state_event True), Remove 3, Remove 1, Add 3]
        (new_server False)) = [2, 3]"
    by (simp add: run_calls_def add_websocket_websockets remove_websocket_websockets
        send_msg_websockets w)
  from registry_follows_set_operations [OF h, of is_connected second_closed
        "[Add 1, Add 2, Add 1, Broadcast (state_event True), Remove 3, Remove 1, Add 3]"]
  have "set (websockets (run_calls is_connected second_closed
        [Add 1, Add 2, Add 1, Broadcast (state_event True), Remove 3, Remove 1, Add 3]
        (new_server False))) =
        fold set_step [Add 1, Add 2, Add 1, Broadcast (state_event True), Remove 3, Remove 1, Add 3]
          (set (websockets (new_server False :: (nat, bool) server)))"
    by blast
  then have "set (websockets (run_calls is_connected second_closed
        [Add 1, Add 2, Add 1, Broadcast (state_event True), Remove 3, Remove 1, Add 3]
        (new_server False))) = {2, 3}"
    by (simp add: w insert_Diff_if insert_commute)
  with h r show ?thesis by blast
qed

subsection \<open>Broadcasting\<close>

text \<open>
  Claim C10, as amended. When no registered websocket is closed and the registry has no
  duplicates, a broadcast returns normally after sending the serialised message to the
  registered websockets in the order of the registry, so each member receives it exactly
  once and nobody else receives anything. On an empty registry the broadcast returns the
  state unchanged, and an add or remove event of a usb interface still logs and reloads
  the camera.
\<close>

theorem send_msg_to_websockets_delivers_once_in_order:
  assumes "\<forall>w\<in>set (websockets s). \<not> closed w" and "distinct (websockets s)"
  shows "send_msg_to_websockets closed msg_json s =
           Inr (s\<lparr>sent := sent s @ map (\<lambda>w. (w, json_dumps msg_json)) (websockets s)\<rparr>)
         \<and> length (filter (\<lambda>p. fst p = w)
              (sent (state_of (send_msg_to_websockets closed msg_json s)))) =
            length (filter (\<lambda>p. fst p = w) (sent s)) +
              (if w \<in> set (websockets s) then 1 else 0)
         \<and> (websockets s = [] \<longrightarrow> send_msg_to_websockets closed msg_json s = Inr s)
         \<and> (websockets s = [] \<and> (action d = Some ''add'' \<or> action d = Some ''remove'')
              \<and> device_type d = Some ''usb_interface'' \<longrightarrow>
              usb_device_event load get_connect closed d s =
                Inr (s\<lparr>log_lines := log_lines s @ [event_log_line d],
                       camera := load (camera s)\<rparr>))"
proof -
  have a: "send_msg_to_websockets closed msg_json s =
           Inr (s\<lparr>sent := sent s @ map (\<lambda>w. (w, json_dumps msg_json)) (websockets s)\<rparr>)"
    using assms(1) by (simp add: send_msg_to_websockets_def send_loop_all_open)
  have b: "length (filter (\<lambda>p. fst p = w)
              (sent (state_of (send_msg_to_websockets closed msg_json s)))) =
            length (filter (\<lambda>p. fst p = w) (sent s)) +
              (if w \<in> set (websockets s) then 1 else 0)"
  proof -
    have "sent (state_of (send_msg_to_websockets closed msg_json s)) =
            sent s @ map (\<lambda>w. (w, json_dumps msg_json)) (websockets s)"
      unfolding a by simp
    then show ?thesis
      by (simp only: filter_append length_append count_sent_to [OF assms(2)])
  qed
  have c: "websockets s = [] \<longrightarrow> send_msg_to_websockets closed msg_json s = Inr s"
    by (simp add: send_msg_to_websockets_def)
  have e: "websockets s = [] \<and> (action d = Some ''add'' \<or> action d = Some ''remove'')
              \<and> device_type d = Some ''usb_interface'' \<longrightarrow>
              usb_device_event load get_connect closed d s =
                Inr (s\<lparr>log_lines := log_lines s @ [event_log_line d],
                       camera := load (camera s)\<rparr>)"
    by (auto simp add: usb_device_event_def Let_def send_msg_to_websockets_def)
  from a b c e show ?thesis by blast
qed

theorem send_msg_to_websockets_delivers_once_in_order_witness:
  "websockets three_clients = [1, 2, 3]
   \<and> \<not> none_closed 1 \<and> \<not> none_closed 2 \<and> \<not> none_closed 3
   \<and> distinct (websockets three_clients)
   \<and> send_msg_to_websockets none_closed (state_event True) three_clients =
       Inr (three_clients\<lparr>sent :=
              [(1, wire_schema True), (2, wire_schema True), (3, wire_schema True)]\<rparr>)"
proof -
  have h1: "\<forall>w\<in>set (websockets three_clients). \<not> none_closed w"
    by (simp add: none_closed_def)
  have h2: "distinct (websockets three_clients)"
    by (simp add: three_clients_def)
  from send_msg_to_websockets_delivers_once_in_order [OF h1 h2]
  have "send_msg_to_websockets none_closed (state_event True) three_clients =
           Inr (three_clients\<lparr>sent := sent three_clients @
                  map (\<lambda>w. (w, json_dumps (state_event True))) (websockets three_clients)\<rparr>)"
    by blast
  then show ?thesis
    by (simp add: json_dumps_state_event three_clients_def new_server_def udev_init_def
        none_closed_def)
qed

text \<open>
  Claim C10 as stated, for every registry state, fails: with three registered clients of
  which the second is closed the broadcast raises after the first send, and the third
  client, registered and open, receives no message.
\<close>

theorem broadcast_misses_open_subscriber_counterexample:
  "websockets three_clients = [1, 2, 3]
   \<and> \<not> second_closed 3
   \<and> raised (send_msg_to_websockets second_closed (state_event True) three_clients)
   \<and> map fst (sent (state_of
        (send_msg_to_websockets second_closed (state_event True) three_clients))) = [1]"
  by (simp add: send_msg_to_websockets_def write_message_def three_clients_def new_server_def
      udev_init_def second_closed_def)

text \<open>
  Claim C2, as amended. A send that raises is not caught: when some registered websocket
  is closed the broadcast raises \<open>WebSocketClosedError\<close> to its caller. The
  websockets registered before the first closed one have received the message; the closed
  one and all that were registered after it receive nothing from this broadcast.
\<close>

theorem send_msg_to_websockets_stops_at_first_failure:
  assumes "\<exists>w\<in>set (websockets s). closed w"
  shows "send_msg_to_websockets closed msg_json s =
           Inl (WebSocketClosedError,
                s\<lparr>sent := sent s @ map (\<lambda>w. (w, json_dumps msg_json))
                       (takeWhile (\<lambda>w. \<not> closed w) (websockets s))\<rparr>)"
  using assms by (simp add: send_msg_to_websockets_def send_loop_some_closed)

theorem send_msg_to_websockets_stops_at_first_failure_witness:
  "(\<exists>w\<in>set (websockets three_clients). second_closed w)
   \<and> send_msg_to_websockets second_closed (state_event True) three_clients =
       Inl (WebSocketClosedError, three_clients\<lparr>sent := [(1, wire_schema True)]\<rparr>)"
proof -
  have h: "\<exists>w\<in>set (websockets three_clients). second_closed w"
    by (simp add: three_clients_def second_closed_def)
  from send_msg_to_websockets_stops_at_first_failure [OF h]
  have "send_msg_to_websockets second_closed (state_event True) three_clients =
           Inl (WebSocketClosedError,
                three_clients\<lparr>sent := sent three_clients @
                  map (\<lambda>w. (w, json_dumps (state_event True)))
                    (takeWhile (\<lambda>w. \<not> second_closed w) (websockets three_clients))\<rparr>)"
    by blast
  then show ?thesis using h
    by (simp add: json_dumps_state_event three_clients_def new_server_def udev_init_def
        second_closed_def)
qed

text \<open>
  Claim C2 as stated fails: with three registered clients of which the second is closed,
  the broadcast raises, and the third client, whose connection is open, receives nothing.
\<close>

theorem send_failure_not_isolated_counterexample:
  "raised (send_msg_to_websockets second_closed (state_event True) three_clients)
   \<and> 3 \<in> set (websockets three_clients)
   \<and> \<not> second_closed 3
   \<and> sent (state_of (send_msg_to_websockets second_closed (state_event True) three_clients)) =
       [(1, wire_schema True)]"
  by (simp add: send_msg_to_websockets_def write_message_def json_dumps_state_event
      three_clients_def new_server_def udev_init_def second_closed_def)

subsection \<open>Registry changes during a broadcast\<close>




subsection \<open>The wire format\<close>

text \<open>
  Claim C6. Every message that a device event or a subscription sends is the text of the
  wire schema, with a boolean in the \<open>value\<close> field: the four keys in the order
  \<open>event\<close>, \<open>type\<close>, \<open>mutation\<close>, \<open>value\<close>, and the three constant strings.
\<close>

theorem sent_messages_follow_wire_schema:
  "sent (state_of (usb_device_event load get_connect closed d s)) =
     sent s @ map (\<lambda>w. (w, wire_schema (get_connect (load (camera s)))))
       (if action d \<in> set [Some ''add'', Some ''remove'']
           \<and> device_type d = Some ''usb_interface''
        then takeWhile (\<lambda>w. \<not> closed w) (websockets s) else [])
   \<and> sent (state_of (add_websocket get_connect closed w s)) =
     sent s @ map (\<lambda>v. (v, wire_schema (get_connect (camera s))))
       (if w \<in> set (websockets s) \<or> closed w then [] else [w])
   \<and> json_dumps (state_event v) = wire_schema v
   \<and> map fst (state_event v) = [''event'', ''type'', ''mutation'', ''value'']"
proof -
  have a: "sent (state_of (usb_device_event load get_connect closed d s)) =
     sent s @ map (\<lambda>w. (w, wire_schema (get_connect (load (camera s)))))
       (if action d \<in> set [Some ''add'', Some ''remove'']
           \<and> device_type d = Some ''usb_interface''
        then takeWhile (\<lambda>w. \<not> closed w) (websockets s) else [])"
    by (simp add: usb_device_event_def Let_def send_msg_state json_dumps_state_event)
  have b: "sent (state_of (add_websocket get_connect closed w s)) =
     sent s @ map (\<lambda>v. (v, wire_schema (get_connect (camera s))))
       (if w \<in> set (websockets s) \<or> closed w then [] else [w])"
    by (simp add: add_websocket_def send_init_state json_dumps_state_event)
  have c: "map fst (state_event v) = [''event'', ''type'', ''mutation'', ''value'']"
    by (simp add: state_event_def)
  from a b c json_dumps_state_event [of v] show ?thesis by blast
qed

theorem sent_messages_follow_wire_schema_witness:
  "sent (state_of (usb_device_event probe_present is_connected second_closed usb_add
      three_clients)) = [(1, wire_schema True)]
   \<and> sent (state_of (add_websocket is_connected second_closed 4 three_clients)) =
       [(4, wire_schema False)]"
  using sent_messages_follow_wire_schema
    [of probe_present is_connected second_closed usb_add three_clients 4]
  by (simp add: three_clients_def new_server_def udev_init_def usb_add_def
      probe_present_def is_connected_def second_closed_def none_closed_def)

subsection \<open>Starting the device monitor\<close>

text \<open>
  Claim C8, as amended. Each call of \<open>udev_init\<close> builds and starts one more
  observer and stores it in \<open>observer_usb\<close>; an observer that was started before
  keeps running. After \<open>n\<close> calls there are \<open>n\<close> more observers than before. The
  constructor calls \<open>udev_init\<close> once, so a new server has exactly one.
\<close>

theorem udev_init_starts_one_observer_per_call:
  "started ((udev_init ^^ n) s) = started s @ replicate n usb_observer
   \<and> observer_usb (udev_init s) = Some usb_observer
   \<and> started (new_server cam) = [usb_observer]"
proof -
  have a: "started ((udev_init ^^ n) s) = started s @ replicate n usb_observer"
  proof (induction n)
    case 0
    show ?case by simp
  next
    case (Suc n)
    then show ?case by (simp add: udev_init_def replicate_append_same)
  qed
  have b: "observer_usb (udev_init s) = Some usb_observer"
    by (simp add: udev_init_def)
  have c: "started (new_server cam) = [usb_observer]"
    by (simp add: new_server_def udev_init_def)
  from a b c show ?thesis by blast
qed

text \<open>
  Claim C8 as stated fails: a second call of \<open>udev_init\<close> on a new server leaves two
  started observers.
\<close>

theorem udev_init_not_idempotent_counterexample:
  "started (udev_init (new_server False :: (nat, bool) server)) = [usb_observer, usb_observer]
   \<and> length (started (udev_init (new_server False :: (nat, bool) server))) = 2"
  by (simp add: new_server_def udev_init_def)

end
